theory Spec2Isabelle
  imports Main "HOL-Library.Word"
begin

section \<open>The WASI host shim of try-watim (src/compiler.ts)\<close>

text \<open>
  The shim runs inside a JavaScript engine. Numbers that reach it from the guest are
  wasm \<open>i32\<close> values, which arrive as (signed) integers: they are modelled as \<open>int\<close>.
  A thrown JavaScript exception is a value of type \<open>error\<close>; an operation that mutates
  a buffer returns the buffer it leaves behind together with its outcome, so that the
  state after a throw stays visible.
\<close>

type_synonym byte = "8 word"

datatype error =
    RangeError            \<comment> \<open>a \<open>DataView\<close> accessor called outside the view\<close>
  | NotOpen int           \<comment> \<open>\<open>new Error(`file descriptor ${fd} is not open`)\<close>\<close>
  | Exit int              \<comment> \<open>\<open>new Error(`EXIT ${code}`)\<close>\<close>
  | Rejected string       \<comment> \<open>a promise of the environment (loader, instantiation) rejected\<close>

subsection \<open>\<open>DataView\<close> accessors\<close>

text \<open>
  A \<open>DataView\<close> is modelled by the bytes it spans; \<open>byteLength\<close> is \<open>length\<close>. Each accessor
  throws \<open>RangeError\<close> when the bytes it touches are not all inside the view.
\<close>

definition getUint8 :: "byte list \<Rightarrow> int \<Rightarrow> error + byte" where
  "getUint8 v off =
     (if 0 \<le> off \<and> off < int (length v) then Inr (v ! nat off) else Inl RangeError)"

definition setUint8 :: "byte list \<Rightarrow> int \<Rightarrow> int \<Rightarrow> error + byte list" where
  "setUint8 v off x =
     (if 0 \<le> off \<and> off < int (length v) then Inr (v[nat off := word_of_int x])
      else Inl RangeError)"

text \<open>Little-endian 32-bit accessors (the source always passes \<open>true\<close>).\<close>

definition getUint32 :: "byte list \<Rightarrow> int \<Rightarrow> error + int" where
  "getUint32 v off =
     (if 0 \<le> off \<and> off + 4 \<le> int (length v)
      then Inr (uint (v ! nat off) + 256 * uint (v ! (nat off + 1))
                + 65536 * uint (v ! (nat off + 2)) + 16777216 * uint (v ! (nat off + 3)))
      else Inl RangeError)"

definition setUint32 :: "byte list \<Rightarrow> int \<Rightarrow> int \<Rightarrow> error + byte list" where
  "setUint32 v off x =
     (if 0 \<le> off \<and> off + 4 \<le> int (length v)
      then Inr (v[nat off := word_of_int x,
                  nat off + 1 := word_of_int (x div 256),
                  nat off + 2 := word_of_int (x div 65536),
                  nat off + 3 := word_of_int (x div 16777216)])
      else Inl RangeError)"

subsection \<open>The byte-copy primitive\<close>

text \<open>
  \<^verbatim>\<open>
  const copy = (srcBuf, dstBuf, src, dst, len) => {
      for (let i = 0; i < len; i++) {
          if (src + i >= srcBuf.byteLength) return i
          if (dst + i >= dstBuf.byteLength) return i
          dstBuf.setUint8(dst + i, srcBuf.getUint8(src + i))
      }
      return len
  }
  \<close>
  \<open>copy_loop\<close> is the loop from counter \<open>i\<close> on; the result is what \<open>copy\<close> returns (or
  throws) and the destination buffer as the call leaves it.
\<close>

function copy_loop ::
  "byte list \<Rightarrow> byte list \<Rightarrow> int \<Rightarrow> int \<Rightarrow> int \<Rightarrow> int \<Rightarrow> (error + int) \<times> byte list" where
  "copy_loop srcBuf dstBuf src dst len i =
     (if i < len then
        if src + i \<ge> int (length srcBuf) then (Inr i, dstBuf)
        else if dst + i \<ge> int (length dstBuf) then (Inr i, dstBuf)
        else (case getUint8 srcBuf (src + i) of
                Inl e \<Rightarrow> (Inl e, dstBuf)
              | Inr b \<Rightarrow>
                  (case setUint8 dstBuf (dst + i) (uint b) of
                     Inl e \<Rightarrow> (Inl e, dstBuf)
                   | Inr dstBuf' \<Rightarrow> copy_loop srcBuf dstBuf' src dst len (i + 1)))
      else (Inr len, dstBuf))"
  by pat_completeness auto
termination
  by (relation "measure (\<lambda>(srcBuf, dstBuf, src, dst, len, i). nat (len - i))") auto

definition copy ::
  "byte list \<Rightarrow> byte list \<Rightarrow> int \<Rightarrow> int \<Rightarrow> int \<Rightarrow> (error + int) \<times> byte list" where
  "copy srcBuf dstBuf src dst len = copy_loop srcBuf dstBuf src dst len 0"

subsection \<open>Strings\<close>

text \<open>
  A JavaScript string is modelled by the list of the UTF-8 bytes of its code points, as
  \<open>char\<close>s, so that \<open>TextEncoder.encode\<close> only changes the element type.
  \<open>split_slash\<close> is \<open>s.split('/')\<close> (never empty: the empty string gives one empty
  segment) and \<open>join_slash\<close> is \<open>xs.join('/')\<close>.
\<close>

definition encode :: "string \<Rightarrow> byte list" where
  "encode s = map (\<lambda>c. word_of_nat (of_char c)) s"

text \<open>
  \<open>new TextDecoder().decode(bytes)\<close> decodes UTF-8 without failing: every maximal
  ill-formed part of the input becomes the replacement character U+FFFD, and one
  byte-order mark at the start of the input is dropped. \<open>utf8_decode\<close> is the decoder of
  the Encoding Standard, run over the bytes that are left: \<open>seen\<close> are the bytes of the
  sequence under way, \<open>needed\<close> is the number of bytes it still lacks, and \<open>lower\<close> and
  \<open>upper\<close> bound the byte that may come next. A byte that cannot continue the sequence
  ends it with a replacement character and is then read again as the start of a new one.
  A well-formed sequence gives the code point whose UTF-8 bytes it is, so in this model
  of strings it is passed on as it is.
\<close>

definition replacement :: "byte list" where
  "replacement = [0xEF, 0xBF, 0xBD]"

function utf8_decode :: "byte list \<Rightarrow> nat \<Rightarrow> byte \<Rightarrow> byte \<Rightarrow> byte list \<Rightarrow> byte list" where
  "utf8_decode seen needed lower upper [] = (if needed \<noteq> 0 then replacement else [])"
| "utf8_decode seen needed lower upper (b # bs) =
     (if needed = 0 then
        (if b \<le> 0x7F then b # utf8_decode [] 0 0x80 0xBF bs
         else if 0xC2 \<le> b \<and> b \<le> 0xDF then utf8_decode [b] 1 0x80 0xBF bs
         else if 0xE0 \<le> b \<and> b \<le> 0xEF then
           utf8_decode [b] 2 (if b = 0xE0 then 0xA0 else 0x80) (if b = 0xED then 0x9F else 0xBF) bs
         else if 0xF0 \<le> b \<and> b \<le> 0xF4 then
           utf8_decode [b] 3 (if b = 0xF0 then 0x90 else 0x80) (if b = 0xF4 then 0x8F else 0xBF) bs
         else replacement @ utf8_decode [] 0 0x80 0xBF bs)
      else if b < lower \<or> upper < b then replacement @ utf8_decode [] 0 0x80 0xBF (b # bs)
      else if needed = 1 then seen @ [b] @ utf8_decode [] 0 0x80 0xBF bs
      else utf8_decode (seen @ [b]) (needed - 1) 0x80 0xBF bs)"
  by pat_completeness auto
termination
  by (relation "measure (\<lambda>(seen, needed, lower, upper, bs).
                  2 * length bs + (if needed = 0 then 0 else 1))") auto

definition decode :: "byte list \<Rightarrow> string" where
  "decode bytes =
     map (\<lambda>b. char_of (unat b))
       (utf8_decode [] 0 0x80 0xBF
          (if take 3 bytes = [0xEF, 0xBB, 0xBF] then drop 3 bytes else bytes))"

fun split_slash :: "string \<Rightarrow> string list" where
  "split_slash [] = [[]]"
| "split_slash (c # cs) =
     (if c = CHR ''/'' then [] # split_slash cs
      else (c # hd (split_slash cs)) # tl (split_slash cs))"

fun join_slash :: "string list \<Rightarrow> string" where
  "join_slash [] = []"
| "join_slash [s] = s"
| "join_slash (s # t # ss) = s @ CHR ''/'' # join_slash (t # ss)"

text \<open>\<open>ArrayBuffer.prototype.slice(begin, end)\<close>: negative indices count from the end,
  both are clamped to the buffer.\<close>

definition slice :: "byte list \<Rightarrow> int \<Rightarrow> int \<Rightarrow> byte list" where
  "slice buf begin end' =
     (let L = int (length buf);
          first = (if begin < 0 then max (L + begin) 0 else min begin L);
          final = (if end' < 0 then max (L + end') 0 else min end' L)
      in take (nat (final - first)) (drop (nat first) buf))"

subsection \<open>The virtual file tree\<close>

text \<open>
  \<open>FileSystemNode<T>\<close>: a file entry holding a \<open>T\<close>, or a directory whose \<open>children\<close>
  object is kept as the list of its own properties (a JavaScript object has each name
  once; \<open>map_of\<close> reads it).
\<close>

datatype 'a FileSystemNode =
    FileEntry 'a
  | Directory "(string \<times> 'a FileSystemNode) list"

text \<open>
  \<open>children\<close> is an ordinary object (an object literal, or the result of
  \<open>Object.fromEntries\<close>), so \<open>children[name]\<close> is the own property when there is one
  and otherwise what \<open>Object.prototype\<close> has under that name; only a name found in
  neither gives \<open>undefined\<close>. A value that comes from the prototype is no node: it has
  neither a \<open>type\<close> nor a \<open>file\<close> property.
\<close>

datatype 'a jsvalue =
    Node "'a FileSystemNode"
  | Inherited               \<comment> \<open>a property of \<open>Object.prototype\<close>\<close>

definition objectPrototype :: "string list" where
  "objectPrototype =
     [''constructor'', ''hasOwnProperty'', ''isPrototypeOf'', ''propertyIsEnumerable'',
      ''toLocaleString'', ''toString'', ''valueOf'', ''__proto__'',
      ''__defineGetter__'', ''__defineSetter__'', ''__lookupGetter__'', ''__lookupSetter__'']"

definition getProperty :: "(string \<times> 'a FileSystemNode) list \<Rightarrow> string \<Rightarrow> 'a jsvalue option" where
  "getProperty children name =
     (case map_of children name of
        Some node \<Rightarrow> Some (Node node)
      | None \<Rightarrow> if name \<in> set objectPrototype then Some Inherited else None)"

subsection \<open>Files and the state of one run\<close>

text \<open>
  A \<open>File\<close> is an object of two functions and an optional preopen name. The source builds
  five kinds of them; the functions are named by what they close over. \<open>ReadFile c data\<close>
  is the \<open>read\<close> that \<open>createFile(data)\<close> returns: \<open>c\<close> identifies the closure, whose
  variable \<open>cursor\<close> lives in the run's state under \<open>c\<close>.
\<close>

datatype reader =
    ReadNotSupported                 \<comment> \<open>\<open>readNotSupported\<close>\<close>
  | ReadFile nat "byte list"         \<comment> \<open>\<open>read\<close> of \<open>createFile(data)\<close>\<close>

datatype writer =
    WriteNotSupported                \<comment> \<open>\<open>writeNotSupported\<close> and \<open>() => [0, NOT_SUPPORTED]\<close>\<close>
  | WriteOutput int                  \<comment> \<open>decodes and calls \<open>writeOutput({fd, data})\<close>\<close>

record File =
  readFn :: reader                 \<comment> \<open>the property \<open>read\<close>\<close>
  writeFn :: writer                \<comment> \<open>the property \<open>write\<close>\<close>
  prestatName :: "string option"

datatype promise = Pending | Resolved "int option"
  \<comment> \<open>the promise \<open>runWasi\<close> returns; \<open>Resolved None\<close> is \<open>resolve(undefined)\<close>\<close>

record host =
  args :: "byte list list"                    \<comment> \<open>the encoded argument vector\<close>
  fileSystem :: "File FileSystemNode"         \<comment> \<open>the resolved tree, under its root\<close>
  memory :: "byte list"                       \<comment> \<open>what \<open>getMemory()\<close> views\<close>
  cursor :: "nat \<Rightarrow> int"                      \<comment> \<open>the \<open>cursor\<close> of each \<open>createFile\<close> closure\<close>
  nextFd :: nat                               \<comment> \<open>the counter \<open>i\<close> of \<open>nextFd\<close>\<close>
  openFds :: "int \<Rightarrow> File option"
  writeOutput :: "(int \<times> string) list"        \<comment> \<open>the calls of \<open>writeOutput\<close>, in order\<close>
  promise :: promise                          \<comment> \<open>settled by \<open>resolve\<close>, which is \<open>onExit\<close>\<close>
  loaderCalls :: "string list"                \<comment> \<open>the paths loaders were called with\<close>

definition NOT_SUPPORTED :: int where "NOT_SUPPORTED = 58"
definition IS_A_DIRECTORY :: int where "IS_A_DIRECTORY = 31"
definition NO_SUCH_FILE_OR_DIRECTORY :: int where "NO_SUCH_FILE_OR_DIRECTORY = 44"
definition STDOUT :: int where "STDOUT = 1"
definition STDERR :: int where "STDERR = 2"

text \<open>A promise keeps the first value it is resolved with.\<close>

definition resolve :: "int option \<Rightarrow> promise \<Rightarrow> promise" where
  "resolve v p = (case p of Pending \<Rightarrow> Resolved v | Resolved w \<Rightarrow> Resolved w)"

definition createFile :: "nat \<Rightarrow> byte list \<Rightarrow> File" where
  "createFile c data = \<lparr> readFn = ReadFile c data, writeFn = WriteNotSupported, prestatName = None \<rparr>"

subsection \<open>The path resolver\<close>

text \<open>
  \<^verbatim>\<open>
  const openFile = (path, fileSystem) => {
      let splits = path.length === 0 ? [] : path.split('/')
      if (splits.length === 0) {
          if (fileSystem.type === "directory") return [0, IS_A_DIRECTORY]
          const fd = nextFd()
          openFds[fd] = fileSystem.file
          return [fd, 0]
      }
      if (fileSystem.type !== "directory") return [0, NO_SUCH_FILE_OR_DIRECTORY]
      const entry = fileSystem.children[splits[0]]
      if (entry === undefined) return [0, NO_SUCH_FILE_OR_DIRECTORY]
      return openFile(splits.slice(1).join('/'), entry)
  }
  \<close>
  The recursion is on the path string, which gets shorter with each segment; the three
  facts about \<open>split\<close> and \<open>join\<close> that follow are what its termination needs.
  The parameter \<open>fileSystem\<close> is called \<open>node\<close> here. For a value inherited from
  \<open>Object.prototype\<close>, \<open>fileSystem.type\<close> and \<open>fileSystem.file\<close> are \<open>undefined\<close>: a
  descriptor is allocated, and the table gets \<open>undefined\<close> under it.
\<close>

lemma join_slash_tl_shorter:
  "join_slash xs \<noteq> [] \<Longrightarrow> length (join_slash (tl xs)) < length (join_slash xs)"
  by (cases xs rule: join_slash.cases) auto

lemma split_slash_not_Nil: "split_slash p \<noteq> []"
  by (cases p) auto

lemma join_split_slash: "join_slash (split_slash p) = p"
proof (induction p)
  case Nil
  show ?case by simp
next
  case (Cons c cs)
  obtain s ss where sp: "split_slash cs = s # ss"
    using split_slash_not_Nil [of cs] by (cases "split_slash cs") auto
  show ?case
  proof (cases "c = CHR ''/''")
    case True
    then show ?thesis using Cons sp by simp
  next
    case False
    then show ?thesis using Cons sp by (cases ss) auto
  qed
qed

function openFile :: "string \<Rightarrow> File jsvalue \<Rightarrow> host \<Rightarrow> (int \<times> int) \<times> host" where
  "openFile path node st =
     (let splits = (if length path = 0 then [] else split_slash path) in
      if length splits = 0 then
        (case node of
           Node (Directory children) \<Rightarrow> ((0, IS_A_DIRECTORY), st)
         | Node (FileEntry file) \<Rightarrow>
             (let fd = int (nextFd st)
              in ((fd, 0), st\<lparr>nextFd := nextFd st + 1, openFds := (openFds st)(fd \<mapsto> file)\<rparr>))
         | Inherited \<Rightarrow>
             (let fd = int (nextFd st)
              in ((fd, 0), st\<lparr>nextFd := nextFd st + 1, openFds := (openFds st)(fd := None)\<rparr>)))
      else
        (case node of
           Node (Directory children) \<Rightarrow>
             (case getProperty children (hd splits) of
                None \<Rightarrow> ((0, NO_SUCH_FILE_OR_DIRECTORY), st)
              | Some entry \<Rightarrow> openFile (join_slash (tl splits)) entry st)
         | Node (FileEntry file) \<Rightarrow> ((0, NO_SUCH_FILE_OR_DIRECTORY), st)
         | Inherited \<Rightarrow> ((0, NO_SUCH_FILE_OR_DIRECTORY), st)))"
  by pat_completeness auto
termination
proof (relation "measure (\<lambda>(path, node, st). length path)")
  show "wf (measure (\<lambda>(path, node, st). length path))" by simp
next
  fix path :: string and node :: "File jsvalue" and st :: host
    and splits entry
  assume "splits = (if length path = 0 then [] else split_slash path)" "length splits \<noteq> 0"
  then have "path \<noteq> []" "splits = split_slash path" by (auto split: if_splits)
  then have "length (join_slash (tl splits)) < length path"
    using join_slash_tl_shorter [of "split_slash path"] by (simp add: join_split_slash)
  then show "((join_slash (tl splits), entry, st), path, node, st)
             \<in> measure (\<lambda>(path, node, st). length path)" by simp
qed

subsection \<open>The system calls\<close>

text \<open>
  Every import takes the state of the run and returns what it returns (\<open>Inr\<close>) or throws
  (\<open>Inl\<close>), with the state it leaves. \<open>file_read\<close> and \<open>file_write\<close> apply the
  \<open>read\<close> and \<open>write\<close> of a \<open>File\<close>; \<open>store_result\<close> is the closing
  \<open>memory.setUint32(p, v, true); return 0\<close> of several imports.
\<close>

definition file_read :: "reader \<Rightarrow> int \<Rightarrow> int \<Rightarrow> host \<Rightarrow> (error + int \<times> int) \<times> host" where
  "file_read r ptr len st =
     (case r of
        ReadNotSupported \<Rightarrow> (Inr (0, NOT_SUPPORTED), st)
      | ReadFile c data \<Rightarrow>
          (case copy data (memory st) (cursor st c) ptr len of
             (Inl e, m) \<Rightarrow> (Inl e, st\<lparr>memory := m\<rparr>)
           | (Inr n, m) \<Rightarrow>
               (Inr (n, 0), st\<lparr>memory := m, cursor := (cursor st)(c := cursor st c + n)\<rparr>)))"

definition file_write :: "writer \<Rightarrow> byte list \<Rightarrow> host \<Rightarrow> (int \<times> int) \<times> host" where
  "file_write w data st =
     (case w of
        WriteNotSupported \<Rightarrow> ((0, NOT_SUPPORTED), st)
      | WriteOutput fd \<Rightarrow>
          ((int (length data), 0), st\<lparr>writeOutput := writeOutput st @ [(fd, decode data)]\<rparr>))"

definition store_result :: "int \<Rightarrow> int \<Rightarrow> host \<Rightarrow> (error + int) \<times> host" where
  "store_result p v st =
     (case setUint32 (memory st) p v of
        Inl e \<Rightarrow> (Inl e, st)
      | Inr m \<Rightarrow> (Inr 0, st\<lparr>memory := m\<rparr>))"

function fd_read_loop ::
  "reader \<Rightarrow> int \<Rightarrow> int \<Rightarrow> int \<Rightarrow> int \<Rightarrow> int \<Rightarrow> host \<Rightarrow> (error + int) \<times> host" where
  "fd_read_loop rd iovsPtr iovsLen readPtr i read st =
     (if i < iovsLen then
        (case getUint32 (memory st) (iovsPtr + 8 * i) of
           Inl e \<Rightarrow> (Inl e, st)
         | Inr ptr \<Rightarrow>
             (case getUint32 (memory st) (iovsPtr + 8 * i + 4) of
                Inl e \<Rightarrow> (Inl e, st)
              | Inr len \<Rightarrow>
                  (case file_read rd ptr len st of
                     (Inl e, st') \<Rightarrow> (Inl e, st')
                   | (Inr (readThisTime, code), st') \<Rightarrow>
                       if code \<noteq> 0 then (Inr code, st')
                       else if readThisTime < len
                            then store_result readPtr (read + readThisTime) st'
                            else fd_read_loop rd iovsPtr iovsLen readPtr (i + 1)
                                   (read + readThisTime) st')))
      else store_result readPtr read st)"
  by pat_completeness auto
termination
  by (relation "measure (\<lambda>(rd, iovsPtr, iovsLen, readPtr, i, read, st). nat (iovsLen - i))") auto

definition fd_read :: "int \<Rightarrow> int \<Rightarrow> int \<Rightarrow> int \<Rightarrow> host \<Rightarrow> (error + int) \<times> host" where
  "fd_read fd iovsPtr iovsLen readPtr st =
     (case openFds st fd of
        None \<Rightarrow> (Inl (NotOpen fd), st)
      | Some file \<Rightarrow> fd_read_loop (readFn file) iovsPtr iovsLen readPtr 0 0 st)"

function fd_write_loop ::
  "writer \<Rightarrow> int \<Rightarrow> int \<Rightarrow> int \<Rightarrow> int \<Rightarrow> int \<Rightarrow> host \<Rightarrow> (error + int) \<times> host" where
  "fd_write_loop wr iovsPtr iovsLen writtenPtr i written st =
     (if i < iovsLen then
        (case getUint32 (memory st) (iovsPtr + 8 * i) of
           Inl e \<Rightarrow> (Inl e, st)
         | Inr ptr \<Rightarrow>
             (case getUint32 (memory st) (iovsPtr + 8 * i + 4) of
                Inl e \<Rightarrow> (Inl e, st)
              | Inr len \<Rightarrow>
                  (case file_write wr (slice (memory st) ptr (ptr + len)) st of
                     ((writ, code), st') \<Rightarrow>
                       if code \<noteq> 0 then (Inr code, st')
                       else fd_write_loop wr iovsPtr iovsLen writtenPtr (i + 1)
                              (written + writ) st')))
      else store_result writtenPtr written st)"
  by pat_completeness auto
termination
  by (relation "measure (\<lambda>(wr, iovsPtr, iovsLen, writtenPtr, i, written, st). nat (iovsLen - i))") auto

definition fd_write :: "int \<Rightarrow> int \<Rightarrow> int \<Rightarrow> int \<Rightarrow> host \<Rightarrow> (error + int) \<times> host" where
  "fd_write fd iovsPtr iovsLen writtenPtr st =
     (case openFds st fd of
        None \<Rightarrow> (Inl (NotOpen fd), st)
      | Some file \<Rightarrow> fd_write_loop (writeFn file) iovsPtr iovsLen writtenPtr 0 0 st)"

definition args_sizes_get :: "int \<Rightarrow> int \<Rightarrow> host \<Rightarrow> (error + int) \<times> host" where
  "args_sizes_get number sizePtr st =
     (case setUint32 (memory st) number (int (length (args st))) of
        Inl e \<Rightarrow> (Inl e, st)
      | Inr m \<Rightarrow>
          (let size = foldl (\<lambda>a b. a + b) 0 (map (\<lambda>s. int (length s) + 1) (args st))
           in store_result sizePtr size (st\<lparr>memory := m\<rparr>)))"

fun args_get_loop :: "byte list list \<Rightarrow> int \<Rightarrow> int \<Rightarrow> int \<Rightarrow> byte list \<Rightarrow> (error + int) \<times> byte list" where
  "args_get_loop [] argv i ptr m = (Inr 0, m)"
| "args_get_loop (arg # rest) argv i ptr m =
     (case setUint32 m (argv + 4 * i) ptr of
        Inl e \<Rightarrow> (Inl e, m)
      | Inr m1 \<Rightarrow>
          (case copy arg m1 0 ptr (int (length arg)) of
             (Inl e, m2) \<Rightarrow> (Inl e, m2)
           | (Inr n, m2) \<Rightarrow>
               (case setUint8 m2 (ptr + int (length arg)) 0 of
                  Inl e \<Rightarrow> (Inl e, m2)
                | Inr m3 \<Rightarrow> args_get_loop rest argv (i + 1) (ptr + int (length arg)) m3)))"

definition args_get :: "int \<Rightarrow> int \<Rightarrow> host \<Rightarrow> (error + int) \<times> host" where
  "args_get argv argv_buf st =
     (case args_get_loop (args st) argv 0 argv_buf (memory st) of
        (r, m) \<Rightarrow> (r, st\<lparr>memory := m\<rparr>))"

definition fd_prestat_get :: "int \<Rightarrow> int \<Rightarrow> host \<Rightarrow> (error + int) \<times> host" where
  "fd_prestat_get fd prestat st =
     (case openFds st fd of
        None \<Rightarrow> (Inr 8, st)
      | Some file \<Rightarrow>
          (case prestatName file of
             None \<Rightarrow> (Inr 8, st)
           | Some name \<Rightarrow>
               (case setUint32 (memory st) prestat 0 of
                  Inl e \<Rightarrow> (Inl e, st)
                | Inr m \<Rightarrow>
                    store_result (prestat + 4) (int (length (encode name))) (st\<lparr>memory := m\<rparr>))))"

definition proc_exit :: "int \<Rightarrow> host \<Rightarrow> (error + int) \<times> host" where
  "proc_exit code st = (Inl (Exit code), st\<lparr>promise := resolve (Some code) (promise st)\<rparr>)"

definition fd_prestat_dir_name :: "int \<Rightarrow> int \<Rightarrow> int \<Rightarrow> host \<Rightarrow> (error + int) \<times> host" where
  "fd_prestat_dir_name fd ptr len st =
     (case openFds st fd of
        None \<Rightarrow> (Inr 8, st)
      | Some file \<Rightarrow>
          (case prestatName file of
             None \<Rightarrow> (Inr 8, st)
           | Some name \<Rightarrow>
               (case copy (encode name) (memory st) 0 ptr len of
                  (Inl e, m) \<Rightarrow> (Inl e, st\<lparr>memory := m\<rparr>)
                | (Inr n, m) \<Rightarrow> (Inr 0, st\<lparr>memory := m\<rparr>))))"

definition path_open ::
  "int \<Rightarrow> int \<Rightarrow> int \<Rightarrow> int \<Rightarrow> int \<Rightarrow> int \<Rightarrow> int \<Rightarrow> int \<Rightarrow> int \<Rightarrow> host \<Rightarrow> (error + int) \<times> host" where
  "path_open parentFd dirflags pathPtr pathLen oflags fsRightsBase fsRightsInheriting fdFlags resPtr st =
     (let path = decode (slice (memory st) pathPtr (pathPtr + pathLen)) in
      case openFile path (Node (fileSystem st)) st of
        ((fd, code), st') \<Rightarrow>
          (case setUint32 (memory st') resPtr fd of
             Inl e \<Rightarrow> (Inl e, st')
           | Inr m \<Rightarrow> (Inr code, st'\<lparr>memory := m\<rparr>)))"

datatype syscall =
    Fd_read int int int int
  | Fd_write int int int int
  | Proc_exit int
  | Args_sizes_get int int
  | Args_get int int
  | Fd_prestat_get int int
  | Fd_prestat_dir_name int int int
  | Path_open int int int int int int int int int

fun wasi_unstable :: "syscall \<Rightarrow> host \<Rightarrow> (error + int) \<times> host" where
  "wasi_unstable (Fd_read fd iovsPtr iovsLen readPtr) = fd_read fd iovsPtr iovsLen readPtr"
| "wasi_unstable (Fd_write fd iovsPtr iovsLen writtenPtr) = fd_write fd iovsPtr iovsLen writtenPtr"
| "wasi_unstable (Proc_exit code) = proc_exit code"
| "wasi_unstable (Args_sizes_get number sizePtr) = args_sizes_get number sizePtr"
| "wasi_unstable (Args_get argv argv_buf) = args_get argv argv_buf"
| "wasi_unstable (Fd_prestat_get fd prestat) = fd_prestat_get fd prestat"
| "wasi_unstable (Fd_prestat_dir_name fd ptr len) = fd_prestat_dir_name fd ptr len"
| "wasi_unstable (Path_open a b pathPtr pathLen c d e f resPtr) =
     path_open a b pathPtr pathLen c d e f resPtr"

text \<open>
  The guest is the environment of the shim. It is modelled by what the shim can see of it:
  it returns from \<open>_start\<close>, or it calls an import with its linear memory in some state
  and goes on from the value the import returns and the memory the import leaves. An
  import that throws unwinds the guest: nothing of it runs afterwards.
\<close>

datatype guest =
    Return
  | Call "byte list" syscall "int \<Rightarrow> byte list \<Rightarrow> guest"

primrec run_guest :: "guest \<Rightarrow> host \<Rightarrow> error option \<times> host" where
  "run_guest Return = (\<lambda>st. (None, st))"
| "run_guest (Call m sc k) =
     (\<lambda>st. case wasi_unstable sc (st\<lparr>memory := m\<rparr>) of
             (Inl e, st') \<Rightarrow> (Some e, st')
           | (Inr r, st') \<Rightarrow> run_guest (k r (memory st')) st')"

subsection \<open>Setup: loading the tree\<close>

text \<open>
  A loader is a function from the path to a promise of the text; the promise resolves
  (\<open>Inr\<close>) or rejects (\<open>Inl\<close>). \<open>loadFileSystem\<close> starts the loaders of all leaves, children
  in the order of \<open>Object.entries\<close>, whatever the others do, and fails when one of them
  fails (with several failures the model reports the first in that order; the source the
  first in time). It threads the list of the paths the loaders were called with and the
  number of \<open>createFile\<close> closures made so far.
\<close>

type_synonym FileLoader = "string \<Rightarrow> error + string"

fun loadFileSystem ::
  "string \<Rightarrow> FileLoader FileSystemNode \<Rightarrow> string list \<times> nat
     \<Rightarrow> (error + File FileSystemNode) \<times> (string list \<times> nat)"
and loadChildren ::
  "string \<Rightarrow> (string \<times> FileLoader FileSystemNode) list \<Rightarrow> string list \<times> nat
     \<Rightarrow> (error + (string \<times> File FileSystemNode) list) \<times> (string list \<times> nat)" where
  "loadFileSystem path (FileEntry loader) (calls, c) =
     (case loader path of
        Inl e \<Rightarrow> (Inl e, (calls @ [path], c))
      | Inr text \<Rightarrow> (Inr (FileEntry (createFile c (encode text))), (calls @ [path], c + 1)))"
| "loadFileSystem path (Directory children) s =
     (case loadChildren path children s of
        (Inl e, s') \<Rightarrow> (Inl e, s')
      | (Inr loaded, s') \<Rightarrow> (Inr (Directory loaded), s'))"
| "loadChildren path [] s = (Inr [], s)"
| "loadChildren path ((childPath, node) # rest) s =
     (case loadFileSystem (path @ ''/'' @ childPath) node s of
        (r, s') \<Rightarrow>
          (case loadChildren path rest s' of
             (rs, s'') \<Rightarrow>
               (case r of
                  Inl e \<Rightarrow> (Inl e, s'')
                | Inr n \<Rightarrow>
                    (case rs of
                       Inl e \<Rightarrow> (Inl e, s'')
                     | Inr ns \<Rightarrow> (Inr ((childPath, n) # ns), s'')))))"

subsection \<open>The execution driver\<close>

text \<open>
  \<open>prepareWasi\<close> builds the state the imports close over: the encoded arguments, the
  resolved tree under the root directory \<open>{".": ...}\<close>, and the descriptors 0 to 3.
  \<open>getMemory\<close> is bound by the driver once the instance exists. \<open>runWasi\<close> is given
  what \<open>loadWasm\<close> resolves to: a rejection, or the exports \<open>memory\<close> and \<open>_start\<close> of
  the instance where they are a memory and a function. Its result is the promise it
  returns to the caller, the exception that left its executor uncaught (if any), the
  loader calls made and the last state of the run.
\<close>

definition initialFds :: "int \<Rightarrow> File option" where
  "initialFds =
     [0 \<mapsto> \<lparr> readFn = ReadNotSupported, writeFn = WriteNotSupported, prestatName = None \<rparr>,
      1 \<mapsto> \<lparr> readFn = ReadNotSupported, writeFn = WriteOutput STDOUT, prestatName = None \<rparr>,
      2 \<mapsto> \<lparr> readFn = ReadNotSupported, writeFn = WriteOutput STDERR, prestatName = None \<rparr>,
      3 \<mapsto> \<lparr> readFn = ReadNotSupported, writeFn = WriteNotSupported, prestatName = Some ''.'' \<rparr>]"

definition prepareWasi ::
  "string \<Rightarrow> string list \<Rightarrow> FileLoader FileSystemNode \<Rightarrow> (error + host) \<times> string list" where
  "prepareWasi wasmPath argStrings fs =
     (case loadFileSystem ''.'' fs ([], 0) of
        (Inl e, (calls, c)) \<Rightarrow> (Inl e, calls)
      | (Inr loaded, (calls, c)) \<Rightarrow>
          (Inr \<lparr> args = map encode (wasmPath # argStrings),
                 fileSystem = Directory [(''.'', loaded)],
                 memory = [],
                 cursor = (\<lambda>c. 0),
                 nextFd = 4,
                 openFds = initialFds,
                 writeOutput = [],
                 promise = Pending,
                 loaderCalls = calls \<rparr>, calls))"

record exports =
  memoryExport :: "byte list option"
  startExport :: "guest option"

record run =
  returned :: promise
  uncaught :: "error option"
  invoked :: "string list"
  final :: "host option"

definition runWasi ::
  "(error + exports) \<Rightarrow> string \<Rightarrow> string list \<Rightarrow> FileLoader FileSystemNode \<Rightarrow> run" where
  "runWasi loadWasm binaryPath argStrings fs =
     (case prepareWasi binaryPath argStrings fs of
        (Inl e, calls) \<Rightarrow>
          \<lparr> returned = Pending, uncaught = Some e, invoked = calls, final = None \<rparr>
      | (Inr wasi, calls) \<Rightarrow>
          (case loadWasm of
             Inl e \<Rightarrow> \<lparr> returned = Pending, uncaught = Some e, invoked = calls, final = Some wasi \<rparr>
           | Inr instance \<Rightarrow>
               (case memoryExport instance of
                  None \<Rightarrow>
                    \<lparr> returned = resolve None (promise wasi), uncaught = None,
                      invoked = calls, final = Some wasi \<rparr>
                | Some mem \<Rightarrow>
                    (case startExport instance of
                       None \<Rightarrow>
                         \<lparr> returned = resolve None (promise wasi), uncaught = None,
                           invoked = calls, final = Some wasi \<rparr>
                     | Some start \<Rightarrow>
                         (case run_guest start (wasi\<lparr>memory := mem\<rparr>) of
                            (Some e, st) \<Rightarrow>
                              \<lparr> returned = promise st, uncaught = Some e,
                                invoked = loaderCalls st, final = Some st \<rparr>
                          | (None, st) \<Rightarrow>
                              \<lparr> returned = resolve (Some 0) (promise st), uncaught = None,
                                invoked = loaderCalls st, final = Some st \<rparr>)))))"

subsection \<open>A small run, for the examples\<close>

text \<open>
  The tree \<open>{ "main": "abcdef", "lib": { "a": "xyz" } }\<close> with loaders that resolve at
  once, and the state \<open>prepareWasi\<close> builds from it for the program \<open>a.wasm\<close> with the
  arguments \<open>x\<close> and \<open>yz\<close>.
\<close>

definition demoFs :: "FileLoader FileSystemNode" where
  "demoFs = Directory [(''main'', FileEntry (\<lambda>p. Inr ''abcdef'')),
                       (''lib'', Directory [(''a'', FileEntry (\<lambda>p. Inr ''xyz''))])]"

definition demoHost :: host where
  "demoHost =
     \<lparr> args = map encode [''a.wasm'', ''x'', ''yz''],
       fileSystem =
         Directory [(''.'', Directory
           [(''main'', FileEntry (createFile 0 (encode ''abcdef''))),
            (''lib'', Directory [(''a'', FileEntry (createFile 1 (encode ''xyz'')))])])],
       memory = [],
       cursor = (\<lambda>c. 0),
       nextFd = 4,
       openFds = initialFds,
       writeOutput = [],
       promise = Pending,
       loaderCalls = [''./main'', ''./lib/a''] \<rparr>"

text \<open>
  Three instances. \<open>helloInstance\<close> writes \<open>hi\<close> to descriptor 1 and returns.
  \<open>exitInstance\<close> asks for the argument sizes, calls \<open>proc_exit(42)\<close> and would write to
  descriptor 1 afterwards. \<open>noStartInstance\<close> exports a memory and no \<open>_start\<close>.
\<close>

definition helloMemory :: "byte list" where
  "helloMemory = [12, 0, 0, 0, 2, 0, 0, 0, 0, 0, 0, 0, 104, 105]"

definition helloInstance :: exports where
  "helloInstance =
     \<lparr> memoryExport = Some helloMemory,
       startExport = Some (Call helloMemory (Fd_write 1 0 1 8) (\<lambda>r m. Return)) \<rparr>"

definition afterExit :: "int \<Rightarrow> byte list \<Rightarrow> guest" where
  "afterExit r m = Call helloMemory (Fd_write 1 0 1 8) (\<lambda>r m. Return)"

definition exitGuest :: guest where
  "exitGuest =
     Call (replicate 8 0) (Args_sizes_get 0 4) (\<lambda>r m. Call m (Proc_exit 42) afterExit)"

definition exitInstance :: exports where
  "exitInstance = \<lparr> memoryExport = Some (replicate 8 0), startExport = Some exitGuest \<rparr>"

definition noStartInstance :: exports where
  "noStartInstance = \<lparr> memoryExport = Some (replicate 8 0), startExport = None \<rparr>"








subsection \<open>Vocabulary of the properties\<close>

text \<open>
  \<open>walk node ks\<close> is the node that the names \<open>ks\<close> lead to from \<open>node\<close>, through own
  properties only: the file or directory that lies at the path \<open>ks\<close> of the tree.
\<close>

fun walk :: "'a FileSystemNode \<Rightarrow> string list \<Rightarrow> 'a FileSystemNode option" where
  "walk node [] = Some node"
| "walk (FileEntry file) (k # ks) = None"
| "walk (Directory children) (k # ks) =
     (case map_of children k of None \<Rightarrow> None | Some child \<Rightarrow> walk child ks)"


text \<open>
  One step of a run: the guest calls an import, the import returns, and the guest goes on.
  \<open>reaches\<close> is any number of such steps, so \<open>reaches (g, st) (Call m sc k, st')\<close> says
  that the guest \<open>g\<close>, started in \<open>st\<close>, gets to call \<open>sc\<close> in the state \<open>st'\<close>.
\<close>

inductive step :: "guest \<times> host \<Rightarrow> guest \<times> host \<Rightarrow> bool" where
  "wasi_unstable sc (st\<lparr>memory := m\<rparr>) = (Inr r, st')
     \<Longrightarrow> step (Call m sc k, st) (k r (memory st'), st')"

definition reaches :: "guest \<times> host \<Rightarrow> guest \<times> host \<Rightarrow> bool" where
  "reaches = step\<^sup>*\<^sup>*"

text \<open>What no import other than \<open>proc_exit\<close> changes: the arguments, the tree, the promise
  of the run and the record of the loader calls.\<close>

definition same_setup :: "host \<Rightarrow> host \<Rightarrow> bool" where
  "same_setup st st' \<longleftrightarrow>
     args st' = args st \<and> fileSystem st' = fileSystem st
     \<and> promise st' = promise st \<and> loaderCalls st' = loaderCalls st"




section \<open>Properties\<close>

text \<open>The equations of the loops are unfolded where a proof asks for it.\<close>

declare copy_loop.simps [simp del] openFile.simps [simp del]
  fd_read_loop.simps [simp del] fd_write_loop.simps [simp del] utf8_decode.simps [simp del]

subsection \<open>The byte-copy primitive\<close>

lemma copy_loop_spec:
  assumes "0 \<le> src" "0 \<le> dst" "0 \<le> i" "i \<le> len"
  shows "\<exists>d'. copy_loop srcBuf dstBuf src dst len i =
           (Inr (max i (min len (min (int (length srcBuf) - src) (int (length dstBuf) - dst)))), d')
         \<and> length d' = length dstBuf
         \<and> (\<forall>j < length dstBuf. d' ! j =
              (if dst + i \<le> int j
                  \<and> int j < dst + max i (min len (min (int (length srcBuf) - src)
                                                       (int (length dstBuf) - dst)))
               then srcBuf ! nat (src + (int j - dst)) else dstBuf ! j))"
  using assms
proof (induction srcBuf dstBuf src dst len i rule: copy_loop.induct)
  case (1 srcBuf dstBuf src dst len i)
  show ?case
  proof (cases "i < len \<and> src + i < int (length srcBuf) \<and> dst + i < int (length dstBuf)")
    case False
    then show ?thesis using "1.prems"
      by (subst copy_loop.simps) (auto simp: max_def min_def)
  next
    case True
    let ?b = "srcBuf ! nat (src + i)"
    let ?d1 = "dstBuf[nat (dst + i) := ?b]"
    have g: "getUint8 srcBuf (src + i) = Inr ?b"
      using True "1.prems" by (simp add: getUint8_def)
    have s: "setUint8 dstBuf (dst + i) (uint ?b) = Inr ?d1"
      using True "1.prems" by (simp add: setUint8_def)
    have step: "copy_loop srcBuf dstBuf src dst len i = copy_loop srcBuf ?d1 src dst len (i + 1)"
      using True g s by (subst copy_loop.simps) simp
    have "\<not> int (length srcBuf) \<le> src + i" "\<not> int (length dstBuf) \<le> dst + i" "i < len"
      using True by auto
    from "1.IH"[OF this(3) this(1) this(2) g s] "1.prems" True
    obtain d' where d':
      "copy_loop srcBuf ?d1 src dst len (i + 1) =
         (Inr (max (i + 1) (min len (min (int (length srcBuf) - src) (int (length ?d1) - dst)))), d')"
      "length d' = length ?d1"
      "\<forall>j < length ?d1. d' ! j =
         (if dst + (i + 1) \<le> int j
             \<and> int j < dst + max (i + 1) (min len (min (int (length srcBuf) - src)
                                                        (int (length ?d1) - dst)))
          then srcBuf ! nat (src + (int j - dst)) else ?d1 ! j)"
      by auto
    have m: "max (i + 1) (min len (min (int (length srcBuf) - src) (int (length dstBuf) - dst)))
           = max i (min len (min (int (length srcBuf) - src) (int (length dstBuf) - dst)))"
      using True by (auto simp: max_def min_def)
    show ?thesis
      unfolding step using d' m True "1.prems"
      apply simp
      apply (intro allI impI)
      subgoal for j
        apply (cases "int j = dst + i")
         apply (auto simp: nth_list_update)
        done
      done
  qed
qed

lemma copy_spec:
  assumes "0 \<le> src" and "0 \<le> dst" and "0 \<le> len"
  shows "\<exists>dstBuf'.
           copy srcBuf dstBuf src dst len =
             (Inr (max 0 (min len (min (int (length srcBuf) - src) (int (length dstBuf) - dst)))),
              dstBuf')
         \<and> length dstBuf' = length dstBuf
         \<and> (\<forall>j < length dstBuf. dstBuf' ! j =
              (if dst \<le> int j
                  \<and> int j < dst + max 0 (min len (min (int (length srcBuf) - src)
                                                       (int (length dstBuf) - dst)))
               then srcBuf ! nat (src + (int j - dst)) else dstBuf ! j))"
  using copy_loop_spec [of src dst 0 len srcBuf dstBuf] assms by (simp add: copy_def)

text \<open>
  Claim C8, as amended. For all source and destination buffers, all offsets \<open>src\<close> and
  \<open>dst\<close> that are not negative (they may lie beyond the end of either buffer) and every
  length \<open>len\<close> that is not negative, \<open>copy\<close> returns normally, the value it returns is
  \<open>max(0, min(len, sourceLength - src, destinationLength - dst))\<close>, exactly that many bytes
  of the destination, from \<open>dst\<close> on, now hold the source bytes from \<open>src\<close> on, and every
  other byte of the destination is as before. No accessor throws \<open>RangeError\<close>, so no
  access is outside a buffer.
\<close>

theorem copy_nonneg:
  assumes "0 \<le> src" and "0 \<le> dst" and "0 \<le> len"
  shows "\<exists>dstBuf'.
           copy srcBuf dstBuf src dst len =
             (Inr (max 0 (min len (min (int (length srcBuf) - src) (int (length dstBuf) - dst)))),
              dstBuf')
         \<and> length dstBuf' = length dstBuf
         \<and> (\<forall>j < length dstBuf. dstBuf' ! j =
              (if dst \<le> int j
                  \<and> int j < dst + max 0 (min len (min (int (length srcBuf) - src)
                                                       (int (length dstBuf) - dst)))
               then srcBuf ! nat (src + (int j - dst)) else dstBuf ! j))"
  using assms by (rule copy_spec)

text \<open>Copying 5 bytes from offset 1 of a 3-byte source copies the 2 bytes there are.\<close>

theorem copy_nonneg_witness:
  "(0::int) \<le> 1 \<and> (0::int) \<le> 0 \<and> (0::int) \<le> 5
   \<and> copy [1, 2, 3 :: byte] [9, 9, 9, 9] 1 0 5 = (Inr 2, [2, 3, 9, 9])
   \<and> max 0 (min 5 (min (int (length [1, 2, 3 :: byte]) - 1)
                        (int (length [9, 9, 9, 9 :: byte]) - 0))) = (2::int)"
  using copy_nonneg [of 1 0 5 "[1, 2, 3]" "[9, 9, 9, 9]"]
  by (simp add: copy_def copy_loop.simps getUint8_def setUint8_def)

text \<open>
  Claim C8 as stated fails where a number is negative. With \<open>len = -1\<close> the loop does not
  run and \<open>copy\<close> returns \<open>len\<close> itself, \<open>-1\<close>, where no byte was copied and the claimed
  count is \<open>0\<close>. With \<open>dst = -1\<close> and \<open>len = 1\<close> neither bound check stops the loop and
  \<open>setUint8(-1, ...)\<close> throws \<open>RangeError\<close>: nothing is returned.
\<close>

theorem copy_negative_counterexample:
  "copy [1 :: byte] [9 :: byte] 0 0 (- 1) = (Inr (- 1), [9])
   \<and> max 0 (min (- 1) (min (int (length [1 :: byte]) - 0) (int (length [9 :: byte]) - 0))) = (0::int)
   \<and> copy [1 :: byte] [9 :: byte] 0 (- 1) 1 = (Inl RangeError, [9])"
  by (simp add: copy_def copy_loop.simps getUint8_def setUint8_def)

subsection \<open>The example run\<close>

text \<open>Setup, applied to the example tree, gives the example state and calls both loaders.\<close>

lemma prepareWasi_demo:
  "prepareWasi ''a.wasm'' [''x'', ''yz''] demoFs = (Inr demoHost, [''./main'', ''./lib/a''])"
  by (simp add: prepareWasi_def demoFs_def demoHost_def)

subsection \<open>Descriptors that are not open\<close>

text \<open>
  Claim C7. For every descriptor number \<open>fd\<close> that is not in the descriptor table,
  \<open>fd_read\<close> and \<open>fd_write\<close> throw the error \<open>file descriptor fd is not open\<close> instead of
  returning an errno, and leave the state of the run, guest memory included, as it was.
  The throw ends the guest: a guest that makes such a call is unwound with that error, and
  its continuation \<open>k\<close> never runs.
\<close>

theorem fd_not_open_throws:
  assumes "openFds st fd = None"
  shows "fd_read fd iovsPtr iovsLen readPtr st = (Inl (NotOpen fd), st)
       \<and> fd_write fd iovsPtr iovsLen writtenPtr st = (Inl (NotOpen fd), st)
       \<and> run_guest (Call m (Fd_read fd iovsPtr iovsLen readPtr) k) st
           = (Some (NotOpen fd), st\<lparr>memory := m\<rparr>)
       \<and> run_guest (Call m (Fd_write fd iovsPtr iovsLen writtenPtr) k) st
           = (Some (NotOpen fd), st\<lparr>memory := m\<rparr>)"
  using assms by (simp add: fd_read_def fd_write_def)

text \<open>Descriptor 7 is not open in the state that setup builds.\<close>

theorem fd_not_open_throws_witness:
  "openFds demoHost 7 = None
   \<and> fd_read 7 0 1 8 demoHost = (Inl (NotOpen 7), demoHost)
   \<and> fd_write 7 0 1 8 demoHost = (Inl (NotOpen 7), demoHost)"
proof -
  have h: "openFds demoHost 7 = None" by (simp add: demoHost_def initialFds_def)
  show ?thesis using h fd_not_open_throws [OF h, of 0 1 8 8 "[]" "\<lambda>r m. Return"] by simp
qed

subsection \<open>Arguments\<close>

text \<open>
  Claim C1 does not hold of the code. For the arguments \<open>a.wasm\<close>, \<open>x\<close>, \<open>yz\<close>,
  \<open>args_sizes_get\<close> reports 3 arguments and 12 bytes (6+1, 1+1, 2+1). \<open>args_get\<close> with the
  buffer at 12 writes a zero byte after each argument but advances \<open>ptr\<close> by the byte
  length only (\<open>ptr += args[i].byteLength\<close>), so the next argument starts on the
  terminator of the one before and overwrites it: the arguments start at 12, 18 and 19,
  the buffer holds \<open>a.wasmxyz\<close> and one zero byte, and 10 bytes are used, not 12.
\<close>

theorem args_get_overwrites_terminators:
  "fst (args_sizes_get 0 4 (demoHost\<lparr>memory := replicate 8 7\<rparr>)) = Inr 0
   \<and> memory (snd (args_sizes_get 0 4 (demoHost\<lparr>memory := replicate 8 7\<rparr>)))
       = [3, 0, 0, 0, 12, 0, 0, 0]
   \<and> fst (args_get 0 12 (demoHost\<lparr>memory := replicate 24 7\<rparr>)) = Inr 0
   \<and> memory (snd (args_get 0 12 (demoHost\<lparr>memory := replicate 24 7\<rparr>)))
       = [12, 0, 0, 0, 18, 0, 0, 0, 19, 0, 0, 0,
          97, 46, 119, 97, 115, 109, 120, 121, 122, 0, 7, 7]"
  by code_simp

subsection \<open>The path resolver\<close>

text \<open>What \<open>openFile\<close> does with an exhausted path, and with one that has a segment left.\<close>

lemma openFile_empty:
  "openFile [] node st =
     (case node of
        Node (Directory children) \<Rightarrow> ((0, IS_A_DIRECTORY), st)
      | Node (FileEntry file) \<Rightarrow>
          ((int (nextFd st), 0),
           st\<lparr>nextFd := nextFd st + 1, openFds := (openFds st)(int (nextFd st) \<mapsto> file)\<rparr>)
      | Inherited \<Rightarrow>
          ((int (nextFd st), 0),
           st\<lparr>nextFd := nextFd st + 1, openFds := (openFds st)(int (nextFd st) := None)\<rparr>))"
  by (subst openFile.simps) (simp add: Let_def split: jsvalue.splits FileSystemNode.splits)

lemma openFile_nonempty:
  assumes "path \<noteq> []"
  shows "openFile path node st =
     (case node of
        Node (Directory children) \<Rightarrow>
          (case getProperty children (hd (split_slash path)) of
             None \<Rightarrow> ((0, NO_SUCH_FILE_OR_DIRECTORY), st)
           | Some entry \<Rightarrow> openFile (join_slash (tl (split_slash path))) entry st)
      | Node (FileEntry file) \<Rightarrow> ((0, NO_SUCH_FILE_OR_DIRECTORY), st)
      | Inherited \<Rightarrow> ((0, NO_SUCH_FILE_OR_DIRECTORY), st))"
  using assms split_slash_not_Nil [of path]
  by (subst openFile.simps) (simp add: Let_def split: jsvalue.splits FileSystemNode.splits)

lemma split_slash_segment:
  "CHR ''/'' \<notin> set k \<Longrightarrow> split_slash (k @ CHR ''/'' # rest) = k # split_slash rest"
  by (induction k) auto

lemma openFile_segment:
  assumes "CHR ''/'' \<notin> set k"
  shows "openFile (k @ CHR ''/'' # rest) (Node (Directory children)) st =
           (case getProperty children k of
              None \<Rightarrow> ((0, NO_SUCH_FILE_OR_DIRECTORY), st)
            | Some entry \<Rightarrow> openFile rest entry st)"
  using assms
  by (simp add: openFile_nonempty split_slash_segment join_split_slash split: option.splits)

lemma openFile_walk:
  assumes "walk node ks = Some node'" and "\<forall>k \<in> set ks. CHR ''/'' \<notin> set k"
  shows "openFile (concat (map (\<lambda>k. k @ ''/'') ks) @ rest) (Node node) st
         = openFile rest (Node node') st"
  using assms
proof (induction ks arbitrary: node)
  case Nil
  then show ?case by simp
next
  case (Cons k ks)
  from Cons.prems(1) obtain children child where
    node: "node = Directory children" and child: "map_of children k = Some child"
    and w: "walk child ks = Some node'"
    by (cases node) (auto split: option.splits)
  have "openFile (concat (map (\<lambda>k. k @ ''/'') (k # ks)) @ rest) (Node node) st
        = openFile (k @ CHR ''/'' # (concat (map (\<lambda>k. k @ ''/'') ks) @ rest)) (Node (Directory children)) st"
    by (simp add: node)
  also have "\<dots> = openFile (concat (map (\<lambda>k. k @ ''/'') ks) @ rest) (Node child) st"
    using Cons.prems(2) child by (simp add: openFile_segment getProperty_def)
  also have "\<dots> = openFile rest (Node node') st"
    using Cons.IH [OF w] Cons.prems(2) by simp
  finally show ?case .
qed

lemma join_slash_slashed:
  "ks \<noteq> [] \<Longrightarrow> join_slash ks @ ''/'' = concat (map (\<lambda>k. k @ ''/'') ks)"
  by (induction ks rule: join_slash.induct) auto

text \<open>
  Claim C3 does not hold of the code. A segment that is not among the children of the
  current directory gives errno 44 only when \<open>Object.prototype\<close> has no property of that
  name either. \<open>toString\<close> is not a child of the directory \<open>.\<close>; opening \<open>./toString\<close>
  finds the inherited function, takes it for a node that is not a directory, and returns
  errno 0 with the fresh descriptor 4, under which the table holds \<open>undefined\<close>. A name
  such as \<open>missing\<close> gives errno 44, as claimed.
\<close>

theorem openFile_inherited_name:
  "fst (openFile ''./toString'' (Node (fileSystem demoHost)) demoHost) = (4, 0)
   \<and> nextFd (snd (openFile ''./toString'' (Node (fileSystem demoHost)) demoHost)) = 5
   \<and> openFds (snd (openFile ''./toString'' (Node (fileSystem demoHost)) demoHost)) 4 = None
   \<and> fst (openFile ''./missing'' (Node (fileSystem demoHost)) demoHost) = (0, 44)"
  by code_simp

text \<open>
  Claim C10. Let a file lie in the resolved tree at the path \<open>p\<close> made of the names \<open>ks\<close>
  (\<open>p = join_slash ks\<close>; no name contains a slash), the root being a directory, as the
  root that setup builds always is. Opening \<open>p\<close> followed by a single slash succeeds
  with errno 0 and binds the next descriptor to that file; opening \<open>p\<close> followed by a
  slash and any non-empty string fails with errno 44 and changes nothing; opening the
  empty string against the root returns errno 31 and changes nothing.
\<close>

theorem openFile_trailing_slash:
  assumes "fileSystem st = Directory children"
    and "walk (fileSystem st) ks = Some (FileEntry file)"
    and "\<forall>k \<in> set ks. CHR ''/'' \<notin> set k"
  shows "openFile (join_slash ks @ ''/'') (Node (fileSystem st)) st
           = ((int (nextFd st), 0),
              st\<lparr>nextFd := nextFd st + 1, openFds := (openFds st)(int (nextFd st) \<mapsto> file)\<rparr>)
       \<and> (\<forall>s. s \<noteq> [] \<longrightarrow>
              openFile (join_slash ks @ ''/'' @ s) (Node (fileSystem st)) st
                = ((0, NO_SUCH_FILE_OR_DIRECTORY), st))
       \<and> openFile [] (Node (fileSystem st)) st = ((0, IS_A_DIRECTORY), st)"
proof -
  have ne: "ks \<noteq> []" using assms(1,2) by (cases ks) auto
  have p: "join_slash ks @ ''/'' @ s = concat (map (\<lambda>k. k @ ''/'') ks) @ s" for s
    using join_slash_slashed [OF ne] by (metis append_assoc)
  have a: "openFile (join_slash ks @ ''/'' @ s) (Node (fileSystem st)) st
           = openFile s (Node (FileEntry file)) st" for s
    unfolding p using openFile_walk [OF assms(2,3)] by simp
  have "openFile (join_slash ks @ ''/'') (Node (fileSystem st)) st
           = openFile [] (Node (FileEntry file)) st"
    using a [of "[]"] by simp
  then show ?thesis
    using a assms(1) by (simp add: openFile_empty openFile_nonempty)
qed

text \<open>The file \<open>./lib/a\<close> of the example.\<close>

theorem openFile_trailing_slash_witness:
  "fileSystem demoHost = Directory [(''.'', Directory
           [(''main'', FileEntry (createFile 0 (encode ''abcdef''))),
            (''lib'', Directory [(''a'', FileEntry (createFile 1 (encode ''xyz'')))])])]
   \<and> walk (fileSystem demoHost) [''.'', ''lib'', ''a''] = Some (FileEntry (createFile 1 (encode ''xyz'')))
   \<and> fst (openFile ''./lib/a/'' (Node (fileSystem demoHost)) demoHost) = (4, 0)
   \<and> openFds (snd (openFile ''./lib/a/'' (Node (fileSystem demoHost)) demoHost)) 4
        = Some (createFile 1 (encode ''xyz''))
   \<and> fst (openFile ''./lib/a/b'' (Node (fileSystem demoHost)) demoHost) = (0, 44)
   \<and> fst (openFile '''' (Node (fileSystem demoHost)) demoHost) = (0, 31)"
proof -
  have h1: "fileSystem demoHost = Directory [(''.'', Directory
           [(''main'', FileEntry (createFile 0 (encode ''abcdef''))),
            (''lib'', Directory [(''a'', FileEntry (createFile 1 (encode ''xyz'')))])])]"
    by (simp add: demoHost_def)
  have h2: "walk (fileSystem demoHost) [''.'', ''lib'', ''a''] = Some (FileEntry (createFile 1 (encode ''xyz'')))"
    by (simp add: demoHost_def)
  have h3: "\<forall>k \<in> set [''.'', ''lib'', ''a'']. CHR ''/'' \<notin> set k" by simp
  note t = openFile_trailing_slash [OF h1 h2 h3]
  have n: "nextFd demoHost = 4" by (simp add: demoHost_def)
  from t have "openFile ''./lib/a/'' (Node (fileSystem demoHost)) demoHost
       = ((4, 0), demoHost\<lparr>nextFd := 5, openFds := (openFds demoHost)(4 \<mapsto> createFile 1 (encode ''xyz''))\<rparr>)"
    by (simp add: n)
  moreover from t have "openFile (join_slash [''.'', ''lib'', ''a''] @ ''/'' @ ''b'') (Node (fileSystem demoHost)) demoHost
                = ((0, NO_SUCH_FILE_OR_DIRECTORY), demoHost)"
    by blast
  then have "openFile ''./lib/a/b'' (Node (fileSystem demoHost)) demoHost = ((0, 44), demoHost)"
    by (simp add: NO_SUCH_FILE_OR_DIRECTORY_def)
  moreover from t have "openFile '''' (Node (fileSystem demoHost)) demoHost = ((0, 31), demoHost)"
    by (simp add: IS_A_DIRECTORY_def)
  ultimately show ?thesis using h1 h2 by simp
qed

subsection \<open>What the imports leave alone\<close>

text \<open>
  No import changes the arguments, the tree or the record of the loader calls, and only
  \<open>proc_exit\<close> settles the promise. The loops are handled by computation induction.
\<close>

lemma same_setup_refl [simp]: "same_setup st st"
  by (simp add: same_setup_def)

lemma same_setup_trans: "same_setup a b \<Longrightarrow> same_setup b c \<Longrightarrow> same_setup a c"
  by (simp add: same_setup_def)

lemma same_setup_update [simp]:
  "same_setup st (st'\<lparr>memory := m\<rparr>) = same_setup st st'"
  "same_setup st (st'\<lparr>cursor := cu\<rparr>) = same_setup st st'"
  "same_setup st (st'\<lparr>nextFd := n\<rparr>) = same_setup st st'"
  "same_setup st (st'\<lparr>openFds := fds\<rparr>) = same_setup st st'"
  "same_setup st (st'\<lparr>writeOutput := w\<rparr>) = same_setup st st'"
  "same_setup (st\<lparr>memory := m\<rparr>) st' = same_setup st st'"
  by (simp_all add: same_setup_def)

lemma store_result_same: "same_setup st (snd (store_result p v st))"
  by (simp add: store_result_def split: sum.splits)

lemma file_read_same: "same_setup st (snd (file_read rd ptr len st))"
  by (simp add: file_read_def split: reader.splits prod.splits sum.splits)

lemma file_write_same: "same_setup st (snd (file_write wr data st))"
  by (simp add: file_write_def split: writer.splits)

lemma file_read_same': "file_read rd ptr len st = (r, st') \<Longrightarrow> same_setup st st'"
  using file_read_same [of st rd ptr len] by simp

lemma file_write_same': "file_write wr data st = (r, st') \<Longrightarrow> same_setup st st'"
  using file_write_same [of st wr data] by simp

lemma fd_read_loop_same:
  "same_setup st (snd (fd_read_loop rd iovsPtr iovsLen readPtr i read st))"
proof (induction rd iovsPtr iovsLen readPtr i read st rule: fd_read_loop.induct)
  case (1 rd iovsPtr iovsLen readPtr i read st)
  show ?case
  proof (cases "i < iovsLen")
    case False
    then show ?thesis by (subst fd_read_loop.simps) (simp add: store_result_same)
  next
    case True
    show ?thesis
    proof (cases "getUint32 (memory st) (iovsPtr + 8 * i)")
      case (Inl e)
      then show ?thesis using True by (subst fd_read_loop.simps) simp
    next
      case ptr: (Inr ptr)
      show ?thesis
      proof (cases "getUint32 (memory st) (iovsPtr + 8 * i + 4)")
        case (Inl e)
        then show ?thesis using True ptr by (subst fd_read_loop.simps) simp
      next
        case len: (Inr len)
        obtain r st' where fr: "file_read rd ptr len st = (r, st')" by force
        have s: "same_setup st st'" using fr by (rule file_read_same')
        show ?thesis
        proof (cases r)
          case (Inl e)
          then show ?thesis using True ptr len fr s by (subst fd_read_loop.simps) simp
        next
          case (Inr p)
          obtain n code where p: "p = (n, code)" by force
          show ?thesis
          proof (cases "code \<noteq> 0 \<or> n < len")
            case True
            then show ?thesis
              using \<open>i < iovsLen\<close> ptr len fr s Inr p
                same_setup_trans [OF s store_result_same [of st' readPtr "read + n"]]
              by (subst fd_read_loop.simps) auto
          next
            case False
            then have c: "\<not> code \<noteq> 0" and n: "\<not> n < len" by auto
            have "same_setup st' (snd (fd_read_loop rd iovsPtr iovsLen readPtr (i + 1) (read + n) st'))"
              using "1.IH" [OF True ptr len fr [symmetric] Inr p [symmetric] c n] .
            with s have "same_setup st (snd (fd_read_loop rd iovsPtr iovsLen readPtr (i + 1) (read + n) st'))"
              by (rule same_setup_trans)
            then show ?thesis
              using True ptr len fr Inr p c n by (subst fd_read_loop.simps) simp
          qed
        qed
      qed
    qed
  qed
qed

lemma fd_write_loop_same:
  "same_setup st (snd (fd_write_loop wr iovsPtr iovsLen writtenPtr i written st))"
proof (induction wr iovsPtr iovsLen writtenPtr i written st rule: fd_write_loop.induct)
  case (1 wr iovsPtr iovsLen writtenPtr i written st)
  show ?case
  proof (cases "i < iovsLen")
    case False
    then show ?thesis by (subst fd_write_loop.simps) (simp add: store_result_same)
  next
    case True
    show ?thesis
    proof (cases "getUint32 (memory st) (iovsPtr + 8 * i)")
      case (Inl e)
      then show ?thesis using True by (subst fd_write_loop.simps) simp
    next
      case ptr: (Inr ptr)
      show ?thesis
      proof (cases "getUint32 (memory st) (iovsPtr + 8 * i + 4)")
        case (Inl e)
        then show ?thesis using True ptr by (subst fd_write_loop.simps) simp
      next
        case len: (Inr len)
        obtain writ code st' where
          fw: "file_write wr (slice (memory st) ptr (ptr + len)) st = ((writ, code), st')"
          by (metis surj_pair)
        have s: "same_setup st st'" using fw by (rule file_write_same')
        show ?thesis
        proof (cases "code \<noteq> 0")
          case True
          then show ?thesis
            using \<open>i < iovsLen\<close> ptr len fw s by (subst fd_write_loop.simps) simp
        next
          case False
          have "same_setup st' (snd (fd_write_loop wr iovsPtr iovsLen writtenPtr (i + 1) (written + writ) st'))"
            using "1.IH" [OF True ptr len fw [symmetric] refl False] .
          with s have "same_setup st (snd (fd_write_loop wr iovsPtr iovsLen writtenPtr (i + 1) (written + writ) st'))"
            by (rule same_setup_trans)
          then show ?thesis
            using True ptr len fw False by (subst fd_write_loop.simps) simp
        qed
      qed
    qed
  qed
qed

lemma openFile_changes:
  "\<exists>n fds. snd (openFile path node st) = st\<lparr>nextFd := n, openFds := fds\<rparr>"
proof (induction path node st rule: openFile.induct)
  case (1 path node st)
  have same: "\<exists>n fds. st = st\<lparr>nextFd := n, openFds := fds\<rparr>"
    by (rule exI [of _ "nextFd st"], rule exI [of _ "openFds st"]) simp
  show ?case
  proof (cases "path = []")
    case True
    then show ?thesis
      using same
      by (subst openFile.simps)
         (auto simp: Let_def split: jsvalue.splits FileSystemNode.splits)
  next
    case False
    then have sp: "(if length path = 0 then [] else split_slash path) = split_slash path"
      and ne: "length (split_slash path) \<noteq> 0"
      using split_slash_not_Nil [of path] by auto
    show ?thesis
    proof (cases node)
      case Inherited
      then show ?thesis using False ne same by (subst openFile.simps) (auto simp: Let_def)
    next
      case (Node n)
      show ?thesis
      proof (cases n)
        case (FileEntry f)
        then show ?thesis using False ne Node same by (subst openFile.simps) (auto simp: Let_def)
      next
        case (Directory children)
        show ?thesis
        proof (cases "getProperty children (hd (split_slash path))")
          case None
          then show ?thesis
            using False ne Node Directory same by (subst openFile.simps) (auto simp: Let_def)
        next
          case (Some entry)
          have "\<exists>n fds. snd (openFile (join_slash (tl (split_slash path))) entry st)
                  = st\<lparr>nextFd := n, openFds := fds\<rparr>"
            using "1.IH" [OF sp [symmetric] _ _ _ Some] ne Node Directory by simp
          then show ?thesis
            using False ne Node Directory Some by (subst openFile.simps) (simp add: Let_def)
        qed
      qed
    qed
  qed
qed

lemma openFile_same: "same_setup st (snd (openFile path node st))"
proof -
  obtain n fds where "snd (openFile path node st) = st\<lparr>nextFd := n, openFds := fds\<rparr>"
    using openFile_changes by blast
  then show ?thesis by simp
qed

lemma args_get_same: "same_setup st (snd (args_get argv argv_buf st))"
  by (simp add: args_get_def split: prod.splits)

lemma args_sizes_get_same: "same_setup st (snd (args_sizes_get number sizePtr st))"
  using store_result_same [of "st\<lparr>memory := m\<rparr>" for m]
  by (simp add: args_sizes_get_def Let_def split: sum.splits)

lemma fd_prestat_get_same: "same_setup st (snd (fd_prestat_get fd prestat st))"
  using store_result_same [of "st\<lparr>memory := m\<rparr>" for m]
  by (simp add: fd_prestat_get_def split: sum.splits option.splits)

lemma fd_prestat_dir_name_same: "same_setup st (snd (fd_prestat_dir_name fd ptr len st))"
  by (simp add: fd_prestat_dir_name_def split: sum.splits option.splits prod.splits)

lemma path_open_same:
  "same_setup st (snd (path_open a b pathPtr pathLen c d e f resPtr st))"
  using openFile_same [of st "decode (slice (memory st) pathPtr (pathPtr + pathLen))" "Node (fileSystem st)"]
  by (auto simp: path_open_def Let_def split: sum.splits prod.splits)

lemma fd_read_same: "same_setup st (snd (fd_read fd iovsPtr iovsLen readPtr st))"
  by (simp add: fd_read_def fd_read_loop_same split: option.splits)

lemma fd_write_same: "same_setup st (snd (fd_write fd iovsPtr iovsLen writtenPtr st))"
  by (simp add: fd_write_def fd_write_loop_same split: option.splits)

lemma wasi_unstable_returns_same:
  assumes "wasi_unstable sc st = (Inr r, st')"
  shows "same_setup st st'"
proof (cases sc)
  case (Proc_exit code)
  then show ?thesis using assms by (simp add: proc_exit_def)
next
  case (Fd_read fd iovsPtr iovsLen readPtr)
  then show ?thesis using assms fd_read_same [of st fd iovsPtr iovsLen readPtr] by simp
next
  case (Fd_write fd iovsPtr iovsLen writtenPtr)
  then show ?thesis using assms fd_write_same [of st fd iovsPtr iovsLen writtenPtr] by simp
next
  case (Args_sizes_get number sizePtr)
  then show ?thesis using assms args_sizes_get_same [of st number sizePtr] by simp
next
  case (Args_get argv argv_buf)
  then show ?thesis using assms args_get_same [of st argv argv_buf] by simp
next
  case (Fd_prestat_get fd prestat)
  then show ?thesis using assms fd_prestat_get_same [of st fd prestat] by simp
next
  case (Fd_prestat_dir_name fd ptr len)
  then show ?thesis using assms fd_prestat_dir_name_same [of st fd ptr len] by simp
next
  case (Path_open a b pathPtr pathLen c d e f resPtr)
  then show ?thesis using assms path_open_same [of st a b pathPtr pathLen c d e f resPtr] by simp
qed



lemma run_guest_returns_promise:
  "fst (run_guest g st) = None \<Longrightarrow> promise (snd (run_guest g st)) = promise st"
proof (induction g arbitrary: st)
  case Return
  show ?case by simp
next
  case (Call m sc k)
  obtain r st' where w: "wasi_unstable sc (st\<lparr>memory := m\<rparr>) = (r, st')" by force
  show ?case
  proof (cases r)
    case (Inl e)
    then show ?thesis using w Call.prems by simp
  next
    case (Inr v)
    have p: "promise st' = promise st"
      using wasi_unstable_returns_same [OF w [unfolded Inr]] by (simp add: same_setup_def)
    have "fst (run_guest (k v (memory st')) st') = None" using Call.prems w Inr by simp
    then have "promise (snd (run_guest (k v (memory st')) st')) = promise st'"
      by (rule Call.IH [rotated -1]) (auto simp: image_iff)
    then show ?thesis using w p Inr by simp
  qed
qed

subsection \<open>The execution driver\<close>

lemma prepareWasi_promise:
  "prepareWasi binaryPath argStrings fs = (Inr wasi, calls)
   \<Longrightarrow> promise wasi = Pending \<and> loaderCalls wasi = calls"
  by (auto simp: prepareWasi_def split: prod.splits sum.splits)

lemma step_run_guest:
  "step (g, st) (g', st') \<Longrightarrow> run_guest g st = run_guest g' st' \<and> same_setup st st'"
  by (erule step.cases) (auto dest: wasi_unstable_returns_same)

lemma reaches_run_guest:
  assumes "reaches (g, st) (g', st')"
  shows "run_guest g st = run_guest g' st' \<and> same_setup st st'"
  using assms unfolding reaches_def
proof (induction rule: rtranclp_induct2)
  case refl
  show ?case by simp
next
  case (step g1 st1 g2 st2)
  then show ?case using step_run_guest [of g1 st1 g2 st2] by (auto intro: same_setup_trans)
qed

text \<open>
  Claim C6. Once setup has succeeded and the module is instantiated, \<open>runWasi\<close> resolves
  with \<open>undefined\<close> when the instance has no memory export or no \<open>_start\<close> function: no
  exception is left uncaught and no guest code has run (the last state is the state
  setup built). It resolves with 0 when \<open>_start\<close> returns normally, which it can only
  do without a call of \<open>proc_exit\<close>.
\<close>

theorem runWasi_undefined_or_zero:
  assumes "prepareWasi binaryPath argStrings fs = (Inr wasi, calls)"
  shows "(memoryExport instance = None \<or> startExport instance = None \<longrightarrow>
            returned (runWasi (Inr instance) binaryPath argStrings fs) = Resolved None
          \<and> uncaught (runWasi (Inr instance) binaryPath argStrings fs) = None
          \<and> final (runWasi (Inr instance) binaryPath argStrings fs) = Some wasi)
       \<and> (\<forall>mem start.
            memoryExport instance = Some mem \<and> startExport instance = Some start
            \<and> fst (run_guest start (wasi\<lparr>memory := mem\<rparr>)) = None \<longrightarrow>
              returned (runWasi (Inr instance) binaryPath argStrings fs) = Resolved (Some 0)
            \<and> uncaught (runWasi (Inr instance) binaryPath argStrings fs) = None)"
proof -
  have p: "promise wasi = Pending" using prepareWasi_promise [OF assms] by simp
  have a: "returned (runWasi (Inr instance) binaryPath argStrings fs) = Resolved None
          \<and> uncaught (runWasi (Inr instance) binaryPath argStrings fs) = None
          \<and> final (runWasi (Inr instance) binaryPath argStrings fs) = Some wasi"
    if "memoryExport instance = None \<or> startExport instance = None"
    using that assms p by (auto simp: runWasi_def resolve_def split: option.splits)
  have b: "returned (runWasi (Inr instance) binaryPath argStrings fs) = Resolved (Some 0)
            \<and> uncaught (runWasi (Inr instance) binaryPath argStrings fs) = None"
    if m: "memoryExport instance = Some mem" and s: "startExport instance = Some start"
      and r: "fst (run_guest start (wasi\<lparr>memory := mem\<rparr>)) = None" for mem start
  proof -
    obtain st where run: "run_guest start (wasi\<lparr>memory := mem\<rparr>) = (None, st)"
      using r by (cases "run_guest start (wasi\<lparr>memory := mem\<rparr>)") auto
    have "promise st = Pending"
      using run_guest_returns_promise [OF r] run p by simp
    then show ?thesis using assms m s run by (simp add: runWasi_def resolve_def)
  qed
  show ?thesis using a b by blast
qed

text \<open>An instance without \<open>_start\<close>, and one that writes \<open>hi\<close> and returns.\<close>

theorem runWasi_undefined_or_zero_witness:
  "prepareWasi ''a.wasm'' [''x'', ''yz''] demoFs = (Inr demoHost, [''./main'', ''./lib/a''])
   \<and> startExport noStartInstance = None
   \<and> returned (runWasi (Inr noStartInstance) ''a.wasm'' [''x'', ''yz''] demoFs) = Resolved None
   \<and> fst (run_guest (Call helloMemory (Fd_write 1 0 1 8) (\<lambda>r m. Return))
             (demoHost\<lparr>memory := helloMemory\<rparr>)) = None
   \<and> returned (runWasi (Inr helloInstance) ''a.wasm'' [''x'', ''yz''] demoFs) = Resolved (Some 0)"
proof -
  have n: "startExport noStartInstance = None" by (simp add: noStartInstance_def)
  have m: "memoryExport helloInstance = Some helloMemory"
    and s: "startExport helloInstance = Some (Call helloMemory (Fd_write 1 0 1 8) (\<lambda>r m. Return))"
    by (simp_all add: helloInstance_def)
  have r: "fst (run_guest (Call helloMemory (Fd_write 1 0 1 8) (\<lambda>r m. Return))
             (demoHost\<lparr>memory := helloMemory\<rparr>)) = None"
    by code_simp
  show ?thesis
    using runWasi_undefined_or_zero [OF prepareWasi_demo, of noStartInstance] n
      runWasi_undefined_or_zero [OF prepareWasi_demo, of helloInstance] m s r prepareWasi_demo
    by simp
qed

text \<open>
  Claim C5, as amended. If the guest calls \<open>proc_exit(c)\<close> during execution, the promise
  \<open>runWasi\<close> returned resolves with \<open>c\<close>, and no guest code runs after the call: the
  last state of the run is the state in which the call was made, with the promise
  settled, whatever the guest would have done next (\<open>k\<close>). The unwind is not caught by
  the driver: the error \<open>EXIT c\<close> leaves \<open>_start\<close> and the executor of the promise
  uncaught (so \<open>resolve(0)\<close> is never reached), and shows as a rejection that nothing
  handles. The caller sees only the promise, resolved by \<open>proc_exit\<close> itself before it
  throws.
\<close>

theorem proc_exit_resolves:
  assumes "prepareWasi binaryPath argStrings fs = (Inr wasi, calls)"
    and "memoryExport instance = Some mem" and "startExport instance = Some start"
    and "reaches (start, wasi\<lparr>memory := mem\<rparr>) (Call m (Proc_exit c) k, st)"
  shows "returned (runWasi (Inr instance) binaryPath argStrings fs) = Resolved (Some c)
       \<and> uncaught (runWasi (Inr instance) binaryPath argStrings fs) = Some (Exit c)
       \<and> final (runWasi (Inr instance) binaryPath argStrings fs)
           = Some (st\<lparr>memory := m, promise := Resolved (Some c)\<rparr>)"
proof -
  have p: "promise wasi = Pending" using prepareWasi_promise [OF assms(1)] by simp
  have r: "run_guest start (wasi\<lparr>memory := mem\<rparr>) = run_guest (Call m (Proc_exit c) k) st"
    and s: "same_setup (wasi\<lparr>memory := mem\<rparr>) st"
    using reaches_run_guest [OF assms(4)] by auto
  have "promise st = Pending" using s p by (simp add: same_setup_def)
  then have "run_guest start (wasi\<lparr>memory := mem\<rparr>)
             = (Some (Exit c), st\<lparr>memory := m, promise := Resolved (Some c)\<rparr>)"
    using r by (simp add: proc_exit_def resolve_def)
  then show ?thesis using assms(1-3) by (simp add: runWasi_def)
qed

text \<open>
  A guest that asks for the argument sizes and then calls \<open>proc_exit(42)\<close>: the run
  resolves with 42, and the write that the guest would have made next is not made.
\<close>

lemma exitGuest_reaches:
  "reaches (exitGuest, demoHost\<lparr>memory := replicate 8 0\<rparr>)
           (Call [3, 0, 0, 0, 12, 0, 0, 0] (Proc_exit 42) afterExit,
            demoHost\<lparr>memory := [3, 0, 0, 0, 12, 0, 0, 0]\<rparr>)"
proof -
  have a: "args demoHost = [[97, 46, 119, 97, 115, 109], [120], [121, 122]]"
    by (simp add: demoHost_def encode_def)
  have "wasi_unstable (Args_sizes_get 0 4) (demoHost\<lparr>memory := replicate 8 0\<rparr>)
        = (Inr 0, demoHost\<lparr>memory := [3, 0, 0, 0, 12, 0, 0, 0]\<rparr>)"
    by (simp add: args_sizes_get_def a store_result_def setUint32_def eval_nat_numeral)
  then have "step (exitGuest, demoHost\<lparr>memory := replicate 8 0\<rparr>)
                  ((\<lambda>r m. Call m (Proc_exit 42) afterExit) 0
                      (memory (demoHost\<lparr>memory := [3, 0, 0, 0, 12, 0, 0, 0]\<rparr>)),
                   demoHost\<lparr>memory := [3, 0, 0, 0, 12, 0, 0, 0]\<rparr>)"
    unfolding exitGuest_def by (intro step.intros) simp
  then show ?thesis by (simp add: reaches_def)
qed

theorem proc_exit_resolves_witness:
  "reaches (exitGuest, demoHost\<lparr>memory := replicate 8 0\<rparr>)
           (Call [3, 0, 0, 0, 12, 0, 0, 0] (Proc_exit 42) afterExit,
            demoHost\<lparr>memory := [3, 0, 0, 0, 12, 0, 0, 0]\<rparr>)
   \<and> returned (runWasi (Inr exitInstance) ''a.wasm'' [''x'', ''yz''] demoFs) = Resolved (Some 42)
   \<and> uncaught (runWasi (Inr exitInstance) ''a.wasm'' [''x'', ''yz''] demoFs) = Some (Exit 42)
   \<and> map_option writeOutput (final (runWasi (Inr exitInstance) ''a.wasm'' [''x'', ''yz''] demoFs)) = Some []"
proof -
  have m: "memoryExport exitInstance = Some (replicate 8 0)"
    and s: "startExport exitInstance = Some exitGuest"
    by (simp_all add: exitInstance_def)
  show ?thesis
    using proc_exit_resolves [OF prepareWasi_demo m s exitGuest_reaches] exitGuest_reaches
    by (simp add: demoHost_def)
qed

text \<open>
  Claim C5 as stated fails in its last part: the driver has no handler around the call of
  \<open>_start\<close>, and the error raised by \<open>proc_exit(42)\<close> leaves the executor uncaught.
\<close>

theorem proc_exit_uncaught_counterexample:
  "uncaught (runWasi (Inr exitInstance) ''a.wasm'' [''x'', ''yz''] demoFs) = Some (Exit 42)
   \<and> returned (runWasi (Inr exitInstance) ''a.wasm'' [''x'', ''yz''] demoFs) = Resolved (Some 42)"
  by code_simp

subsection \<open>Setup calls every loader once\<close>





subsection \<open>The loaded tree and the files a path can reach\<close>






subsection \<open>Reading files\<close>






















lemma getUint32_bound: "getUint32 m p = Inr v \<Longrightarrow> v < 4294967296"
proof -
  assume a: "getUint32 m p = Inr v"
  have u: "uint (w :: byte) \<le> 255" for w
    using uint_bounded [of w] by simp
  have "v = uint (m ! nat p) + 256 * uint (m ! (nat p + 1))
                + 65536 * uint (m ! (nat p + 2)) + 16777216 * uint (m ! (nat p + 3))"
    using a by (auto simp: getUint32_def split: if_splits)
  then show ?thesis
    using u [of "m ! nat p"] u [of "m ! (nat p + 1)"] u [of "m ! (nat p + 2)"] u [of "m ! (nat p + 3)"]
    by linarith
qed





subsection \<open>Files are loaded once and served from the loaded bytes\<close>



end
